theory Spec2Isabelle
  imports Complex_Main "HOL-Library.Multiset"
begin

section \<open>Exceptions\<close>

text \<open>
  What a Python callable raises. Only exceptions derived from \<^verbatim>\<open>Exception\<close> are modelled:
  these are the ones the \<^verbatim>\<open>except Exception\<close> clauses of the source match. The
  argument is the message, \<^verbatim>\<open>str(e)\<close>.
\<close>

datatype exn =
    Exception string
  | ValueError string
  | NotImplementedError
  | TimeoutError

fun str :: "exn \<Rightarrow> string" where
  "str (Exception m) = m"
| "str (ValueError m) = m"
| "str NotImplementedError = []"
| "str TimeoutError = []"


section \<open>decorator\_hooks.py: the synchronous HookRegistry\<close>

datatype HookPriority = LOWEST | LOW | NORMAL | HIGH | HIGHEST

text \<open>\<^verbatim>\<open>HookPriority.value\<close>\<close>

fun priority_value :: "HookPriority \<Rightarrow> int" where
  "priority_value LOWEST = 0"
| "priority_value LOW = 1"
| "priority_value NORMAL = 2"
| "priority_value HIGH = 3"
| "priority_value HIGHEST = 4"

text \<open>
  A hook function object: its \<^verbatim>\<open>__name__\<close> and what calling it does. The call
  \<^verbatim>\<open>func(*args, **kwargs)\<close> takes the arguments (\<open>'a\<close> stands for the positional and
  keyword arguments together) and the program state outside the registry (\<open>'w\<close>, which the
  hook may read and write), and either returns a value (\<open>Inr\<close>) or raises (\<open>Inl\<close>); in both
  cases it leaves a new outside state. Hooks do not reach the registry that holds them.
\<close>

record ('a, 'w, 'r) callable =
  fn_name :: string
  call :: "'a \<Rightarrow> 'w \<Rightarrow> (exn + 'r) \<times> 'w"

text \<open>\<^verbatim>\<open>@dataclass class HookMetadata\<close>\<close>

record ('a, 'w, 'r) HookMetadata =
  func :: "('a, 'w, 'r) callable"
  priority :: HookPriority
  name :: string
  enabled :: bool

text \<open>
  \<^verbatim>\<open>class HookRegistry\<close>: \<^verbatim>\<open>_hooks\<close> is a dict from event name to a list of
  records, \<^verbatim>\<open>_global_hooks\<close> a list of records.
\<close>

record ('a, 'w, 'r) HookRegistry =
  hooks :: "string \<rightharpoonup> ('a, 'w, 'r) HookMetadata list"
  global_hooks :: "('a, 'w, 'r) HookMetadata list"

definition HookRegistry_init :: "('a, 'w, 'r) HookRegistry" where
  "HookRegistry_init = \<lparr>hooks = Map.empty, global_hooks = []\<rparr>"

text \<open>
  \<^verbatim>\<open>lst.sort(key=lambda h: h.priority.value, reverse=True)\<close>. Python's sort is stable, and
  with \<^verbatim>\<open>reverse=True\<close> it still keeps elements of equal key in their original order; so
  it is the stable ascending sort on the negated key. \<open>sort_key\<close> is the stable insertion
  sort of the list library.
\<close>

definition sort_priority_reverse ::
  "('a, 'w, 'r) HookMetadata list \<Rightarrow> ('a, 'w, 'r) HookMetadata list" where
  "sort_priority_reverse hs = sort_key (\<lambda>h. - priority_value (priority h)) hs"

text \<open>
  \<^verbatim>\<open>HookRegistry.register(event, priority, name, enabled)(func)\<close>: the decorator applied
  to \<open>f\<close>. It returns \<open>f\<close> itself; the model returns the registry it has updated.
  \<^verbatim>\<open>name or func.__name__\<close> takes \<^verbatim>\<open>func.__name__\<close> when \<open>name\<close> is \<^verbatim>\<open>None\<close> or the
  empty string.
\<close>

definition register ::
  "string option \<Rightarrow> HookPriority \<Rightarrow> string option \<Rightarrow> bool \<Rightarrow> ('a, 'w, 'r) callable \<Rightarrow>
   ('a, 'w, 'r) HookRegistry \<Rightarrow> ('a, 'w, 'r) HookRegistry" where
  "register event prio nm en f r =
     (let hook_name = (case nm of None \<Rightarrow> fn_name f
                                | Some n \<Rightarrow> if n = [] then fn_name f else n);
          metadata = \<lparr>func = f, priority = prio, name = hook_name, enabled = en\<rparr>
      in case event of
           None \<Rightarrow> r\<lparr>global_hooks := sort_priority_reverse (global_hooks r @ [metadata])\<rparr>
         | Some ev \<Rightarrow>
             (let lst = (case hooks r ev of None \<Rightarrow> [] | Some hs \<Rightarrow> hs)
              in r\<lparr>hooks := (hooks r)(ev \<mapsto> sort_priority_reverse (lst @ [metadata]))\<rparr>))"

text \<open>
  The state \<^verbatim>\<open>trigger\<close> works on: the registry object \<^verbatim>\<open>self\<close>, the program state
  outside it, the lines written with \<^verbatim>\<open>logger.error\<close>, and the local list
  \<^verbatim>\<open>results\<close>. \<open>calls\<close> is not in the source: it records every evaluation of
  \<^verbatim>\<open>hook.func(*args, **kwargs)\<close>, in order, with the hook record and what the call did
  (what a side-effect counter in each hook would observe).
\<close>

record ('a, 'w, 'r) frame =
  self :: "('a, 'w, 'r) HookRegistry"
  world :: 'w
  logged :: "string list"
  results :: "'r list"
  calls :: "(('a, 'w, 'r) HookMetadata \<times> (exn + 'r)) list"

text \<open>The body of both loops of \<^verbatim>\<open>trigger\<close>; \<open>msg\<close> is the text logged before the error.\<close>

definition run_hook ::
  "string \<Rightarrow> ('a, 'w, 'r) HookMetadata \<Rightarrow> 'a \<Rightarrow> ('a, 'w, 'r) frame \<Rightarrow> ('a, 'w, 'r) frame" where
  "run_hook msg hook args s =
     (if enabled hook then
        (case call (func hook) args (world s) of
           (Inr result, w') \<Rightarrow>
             s\<lparr>world := w', results := results s @ [result],
               calls := calls s @ [(hook, Inr result)]\<rparr>
         | (Inl e, w') \<Rightarrow>
             s\<lparr>world := w', logged := logged s @ [msg @ str e],
               calls := calls s @ [(hook, Inl e)]\<rparr>)
      else s)"

text \<open>\<^verbatim>\<open>for hook in self._global_hooks: ...\<close>\<close>

fun global_loop ::
  "('a, 'w, 'r) HookMetadata list \<Rightarrow> 'a \<Rightarrow> ('a, 'w, 'r) frame \<Rightarrow> ('a, 'w, 'r) frame" where
  "global_loop [] args s = s"
| "global_loop (hook # rest) args s =
     global_loop rest args
       (run_hook (''Error in global hook '' @ name hook @ '': '') hook args s)"

text \<open>\<^verbatim>\<open>for hook in self._hooks[event]: ...\<close>\<close>

fun event_loop ::
  "string \<Rightarrow> ('a, 'w, 'r) HookMetadata list \<Rightarrow> 'a \<Rightarrow> ('a, 'w, 'r) frame \<Rightarrow>
   ('a, 'w, 'r) frame" where
  "event_loop event [] args s = s"
| "event_loop event (hook # rest) args s =
     event_loop event rest args
       (run_hook (''Error in hook '' @ name hook @ '' for event '' @ event @ '': '')
          hook args s)"

text \<open>
  \<^verbatim>\<open>HookRegistry.trigger(event, *args, **kwargs)\<close>, called on registry \<open>r\<close> in outside
  state \<open>w\<close>. The value returned to the caller is \<open>results\<close> of the final frame.
\<close>

definition trigger ::
  "('a, 'w, 'r) HookRegistry \<Rightarrow> string \<Rightarrow> 'a \<Rightarrow> 'w \<Rightarrow> ('a, 'w, 'r) frame" where
  "trigger r event args w =
     (let s0 = \<lparr>self = r, world = w, logged = [], results = [], calls = []\<rparr>;
          s1 = global_loop (global_hooks (self s0)) args s0
      in case hooks (self s1) event of
           None \<Rightarrow> s1
         | Some hs \<Rightarrow> event_loop event hs args s1)"

text \<open>
  A registry built by a sequence of \<^verbatim>\<open>register\<close> calls on a fresh registry. One call is
  the tuple (event, priority, name, enabled, func).
\<close>

type_synonym ('a, 'w, 'r) register_call =
  "string option \<times> HookPriority \<times> string option \<times> bool \<times> ('a, 'w, 'r) callable"

fun apply_register ::
  "('a, 'w, 'r) HookRegistry \<Rightarrow> ('a, 'w, 'r) register_call \<Rightarrow> ('a, 'w, 'r) HookRegistry" where
  "apply_register r (event, prio, nm, en, f) = register event prio nm en f r"

definition registered :: "('a, 'w, 'r) register_call list \<Rightarrow> ('a, 'w, 'r) HookRegistry" where
  "registered regs = foldl apply_register HookRegistry_init regs"




section \<open>async\_hooks.py: AsyncHookRegistry\<close>
























section \<open>async\_hooks.py: AsyncHookContext\<close>

text \<open>
  The callables of the remaining classes are awaited one at a time, so they are modelled
  like the hooks of the synchronous registry: they take the program state \<open>'w\<close> outside
  the object that holds them and leave a new one, whether they return or raise.

  A setup hook is awaited with no argument; what it returns is a dict or something else
  (\<^verbatim>\<open>isinstance(result, dict)\<close>).
\<close>

datatype 'v setup_result = Dict "string \<rightharpoonup> 'v" | NotDict

type_synonym ('v, 'w) setup_hook = "'w \<Rightarrow> (exn + 'v setup_result) \<times> 'w"

text \<open>
  A teardown hook is awaited with the dict \<^verbatim>\<open>self._resources\<close> itself, which it may
  change in place; what it returns is dropped. So it yields the exception it raised, if
  any, the resource map as it left it, and the new outside state.
\<close>

type_synonym ('v, 'w) teardown_hook =
  "(string \<rightharpoonup> 'v) \<Rightarrow> 'w \<Rightarrow> exn option \<times> (string \<rightharpoonup> 'v) \<times> 'w"

record ('v, 'w) AsyncHookContext =
  ctx_name :: string
  setup_hooks :: "('v, 'w) setup_hook list"
  teardown_hooks :: "('v, 'w) teardown_hook list"
  resources :: "string \<rightharpoonup> 'v"

definition AsyncHookContext_init :: "string \<Rightarrow> ('v, 'w) AsyncHookContext" where
  "AsyncHookContext_init nm =
     \<lparr>ctx_name = nm, setup_hooks = [], teardown_hooks = [], resources = Map.empty\<rparr>"

text \<open>
  The decorators \<^verbatim>\<open>AsyncHookContext.setup\<close> and \<^verbatim>\<open>AsyncHookContext.teardown\<close> (the
  first name is a keyword of Isabelle, so both carry a suffix).
\<close>

definition setup_ctx ::
  "('v, 'w) setup_hook \<Rightarrow> ('v, 'w) AsyncHookContext \<Rightarrow> ('v, 'w) AsyncHookContext" where
  "setup_ctx hook c = c\<lparr>setup_hooks := setup_hooks c @ [hook]\<rparr>"

definition teardown_ctx ::
  "('v, 'w) teardown_hook \<Rightarrow> ('v, 'w) AsyncHookContext \<Rightarrow> ('v, 'w) AsyncHookContext" where
  "teardown_ctx hook c = c\<lparr>teardown_hooks := teardown_hooks c @ [hook]\<rparr>"

text \<open>
  \<^verbatim>\<open>__aenter__\<close>: \<^verbatim>\<open>self._resources.update(result)\<close> is \<open>++\<close>, where the entries of the
  right map win.
\<close>

fun aenter_loop ::
  "('v, 'w) setup_hook list \<Rightarrow> ('v, 'w) AsyncHookContext \<Rightarrow> 'w \<Rightarrow>
   (exn + ('v, 'w) AsyncHookContext) \<times> 'w" where
  "aenter_loop [] c w = (Inr c, w)"
| "aenter_loop (hook # rest) c w =
     (case hook w of
        (Inr (Dict d), w') \<Rightarrow> aenter_loop rest (c\<lparr>resources := resources c ++ d\<rparr>) w'
      | (Inr NotDict, w') \<Rightarrow> aenter_loop rest c w'
      | (Inl e, w') \<Rightarrow> (Inl e, w'))"

definition aenter ::
  "('v, 'w) AsyncHookContext \<Rightarrow> 'w \<Rightarrow> (exn + ('v, 'w) AsyncHookContext) \<times> 'w" where
  "aenter c w = aenter_loop (setup_hooks c) c w"

text \<open>
  A call of \<^verbatim>\<open>__aexit__\<close>: it returns \<^verbatim>\<open>False\<close> (\<open>Inr False\<close>) or raises; \<open>x_self\<close> is the
  context after it and \<open>x_world\<close> the outside state. \<open>x_calls\<close> is not in the source: it
  lists the teardown hooks awaited, in order, each with the resource map it was given.
\<close>

record ('v, 'w) exit_run =
  x_result :: "exn + bool"
  x_self :: "('v, 'w) AsyncHookContext"
  x_world :: 'w
  x_calls :: "(('v, 'w) teardown_hook \<times> (string \<rightharpoonup> 'v)) list"

text \<open>
  \<^verbatim>\<open>for hook in reversed(self._teardown_hooks): await hook(self._resources)\<close>, then
  \<^verbatim>\<open>return False\<close>. The loop has no \<^verbatim>\<open>try\<close>: the exception of a hook leaves it.
\<close>

fun aexit_loop ::
  "('v, 'w) teardown_hook list \<Rightarrow> ('v, 'w) AsyncHookContext \<Rightarrow> 'w \<Rightarrow>
   (('v, 'w) teardown_hook \<times> (string \<rightharpoonup> 'v)) list \<Rightarrow> ('v, 'w) exit_run" where
  "aexit_loop [] c w tr = \<lparr>x_result = Inr False, x_self = c, x_world = w, x_calls = tr\<rparr>"
| "aexit_loop (hook # rest) c w tr =
     (case hook (resources c) w of
        (None, res', w') \<Rightarrow>
          aexit_loop rest (c\<lparr>resources := res'\<rparr>) w' (tr @ [(hook, resources c)])
      | (Some e, res', w') \<Rightarrow>
          \<lparr>x_result = Inl e, x_self = c\<lparr>resources := res'\<rparr>, x_world = w',
           x_calls = tr @ [(hook, resources c)]\<rparr>)"

text \<open>
  \<^verbatim>\<open>__aexit__(exc_type, exc_val, exc_tb)\<close>; \<open>exc\<close> is the exception that left the body of
  the scope, if any. The method does not look at it.
\<close>

definition aexit ::
  "('v, 'w) AsyncHookContext \<Rightarrow> exn option \<Rightarrow> 'w \<Rightarrow> ('v, 'w) exit_run" where
  "aexit c exc w = aexit_loop (rev (teardown_hooks c)) c w []"


section \<open>async\_hooks.py: AsyncPipeline\<close>

text \<open>
  A stage is called (awaited, when it is a coroutine function) with the current value; an
  error handler is awaited with the current value and the exception.
\<close>

type_synonym ('v, 'w) stage = "'v \<Rightarrow> 'w \<Rightarrow> (exn + 'v) \<times> 'w"

type_synonym ('v, 'w) error_handler = "'v \<Rightarrow> exn \<Rightarrow> 'w \<Rightarrow> (exn + 'v) \<times> 'w"

record ('v, 'w) AsyncPipeline =
  stages :: "('v, 'w) stage list"
  error_handlers :: "nat \<rightharpoonup> ('v, 'w) error_handler"



text \<open>
  The calls \<^verbatim>\<open>process\<close> makes (not in the source): stage \<open>i\<close> on a value, or the handler
  of stage \<open>i\<close> on a value and an exception.
\<close>

datatype 'v pipeline_call = StageCall nat 'v | HandlerCall nat 'v exn

record ('v, 'w) process_run =
  p_result :: "exn + 'v"
  p_world :: 'w
  p_calls :: "'v pipeline_call list"

text \<open>
  \<^verbatim>\<open>for i, stage in enumerate(self._stages): ...\<close>. When the stage raises, the assignment
  to \<^verbatim>\<open>current_data\<close> has not happened, so the handler gets the value the stage was
  called with. An exception of the handler, or of a stage without handler, leaves the
  loop.
\<close>

fun process_loop ::
  "(nat \<rightharpoonup> ('v, 'w) error_handler) \<Rightarrow> (nat \<times> ('v, 'w) stage) list \<Rightarrow> 'v \<Rightarrow> 'w \<Rightarrow>
   'v pipeline_call list \<Rightarrow> ('v, 'w) process_run" where
  "process_loop handlers [] current_data w tr =
     \<lparr>p_result = Inr current_data, p_world = w, p_calls = tr\<rparr>"
| "process_loop handlers ((i, stage) # rest) current_data w tr =
     (case stage current_data w of
        (Inr v, w') \<Rightarrow> process_loop handlers rest v w' (tr @ [StageCall i current_data])
      | (Inl e, w') \<Rightarrow>
          (case handlers i of
             Some h \<Rightarrow>
               (case h current_data e w' of
                  (Inr v, w'') \<Rightarrow>
                    process_loop handlers rest v w''
                      (tr @ [StageCall i current_data, HandlerCall i current_data e])
                | (Inl e', w'') \<Rightarrow>
                    \<lparr>p_result = Inl e', p_world = w'',
                     p_calls = tr @ [StageCall i current_data, HandlerCall i current_data e]\<rparr>)
           | None \<Rightarrow>
               \<lparr>p_result = Inl e, p_world = w', p_calls = tr @ [StageCall i current_data]\<rparr>))"



section \<open>agent\_orchestration.py: agents and the orchestrator\<close>

datatype AgentRole = PLANNER | EXECUTOR | REVIEWER | COORDINATOR

text \<open>
  \<^verbatim>\<open>@dataclass class AgentMessage\<close>; \<open>'m\<close> is the type of the metadata dict.
  \<^verbatim>\<open>__post_init__\<close> replaces a missing \<^verbatim>\<open>previous_messages\<close> by the empty list, so the
  field always holds a list.
\<close>

datatype 'm AgentMessage =
  AgentMessage (role: AgentRole) (content: string) (metadata: 'm)
    (previous_messages: "'m AgentMessage list")

text \<open>
  \<^verbatim>\<open>class AgentHook\<close>. \<open>process_method\<close> is the method \<^verbatim>\<open>_process\<close>, which subclasses
  override. A hook is called (awaited, when it is a coroutine function) and what it
  returns is dropped, so it yields the exception it raised, if any.
\<close>

record ('m, 'w) AgentHook =
  agent_id :: string
  agent_role :: AgentRole
  pre_hooks :: "('m AgentMessage \<Rightarrow> 'w \<Rightarrow> exn option \<times> 'w) list"
  post_hooks :: "('m AgentMessage \<Rightarrow> 'm AgentMessage \<Rightarrow> 'w \<Rightarrow> exn option \<times> 'w) list"
  error_hooks :: "('m AgentMessage \<Rightarrow> exn \<Rightarrow> 'w \<Rightarrow> exn option \<times> 'w) list"
  process_method :: "'m AgentMessage \<Rightarrow> 'w \<Rightarrow> (exn + 'm AgentMessage) \<times> 'w"

text \<open>\<^verbatim>\<open>AgentHook.__init__\<close>, with \<^verbatim>\<open>_process\<close> of the base class: \<^verbatim>\<open>raise NotImplementedError\<close>.\<close>

definition AgentHook_init :: "string \<Rightarrow> AgentRole \<Rightarrow> ('m, 'w) AgentHook" where
  "AgentHook_init aid r =
     \<lparr>agent_id = aid, agent_role = r, pre_hooks = [], post_hooks = [], error_hooks = [],
      process_method = (\<lambda>message w. (Inl NotImplementedError, w))\<rparr>"

text \<open>\<^verbatim>\<open>class SimpleAgent(AgentHook)\<close> with its \<^verbatim>\<open>_process\<close>.\<close>

definition SimpleAgent ::
  "string \<Rightarrow> AgentRole \<Rightarrow> (string \<Rightarrow> 'w \<Rightarrow> (exn + string) \<times> 'w) \<Rightarrow> ('m, 'w) AgentHook" where
  "SimpleAgent aid r processor =
     (AgentHook_init aid r)\<lparr>process_method :=
        (\<lambda>message w.
           case processor (content message) w of
             (Inr c, w') \<Rightarrow>
               (Inr (AgentMessage r c (metadata message)
                       (previous_messages message @ [message])), w')
           | (Inl e, w') \<Rightarrow> (Inl e, w'))\<rparr>"

definition before_execution ::
  "('m AgentMessage \<Rightarrow> 'w \<Rightarrow> exn option \<times> 'w) \<Rightarrow> ('m, 'w) AgentHook \<Rightarrow> ('m, 'w) AgentHook" where
  "before_execution hook a = a\<lparr>pre_hooks := pre_hooks a @ [hook]\<rparr>"

definition after_execution ::
  "('m AgentMessage \<Rightarrow> 'm AgentMessage \<Rightarrow> 'w \<Rightarrow> exn option \<times> 'w) \<Rightarrow> ('m, 'w) AgentHook \<Rightarrow>
   ('m, 'w) AgentHook" where
  "after_execution hook a = a\<lparr>post_hooks := post_hooks a @ [hook]\<rparr>"

definition on_error ::
  "('m AgentMessage \<Rightarrow> exn \<Rightarrow> 'w \<Rightarrow> exn option \<times> 'w) \<Rightarrow> ('m, 'w) AgentHook \<Rightarrow>
   ('m, 'w) AgentHook" where
  "on_error hook a = a\<lparr>error_hooks := error_hooks a @ [hook]\<rparr>"

text \<open>
  \<^verbatim>\<open>for hook in hooks: hook(...)\<close> outside any \<^verbatim>\<open>try\<close>: the first exception leaves the
  loop. The hooks come already applied to their arguments.
\<close>

fun for_each_hook :: "('w \<Rightarrow> exn option \<times> 'w) list \<Rightarrow> 'w \<Rightarrow> exn option \<times> 'w" where
  "for_each_hook [] w = (None, w)"
| "for_each_hook (hook # rest) w =
     (case hook w of
        (None, w') \<Rightarrow> for_each_hook rest w'
      | (Some e, w') \<Rightarrow> (Some e, w'))"

text \<open>
  \<^verbatim>\<open>AgentHook.execute(message)\<close>: the hooks before execution run outside the \<^verbatim>\<open>try\<close>;
  \<^verbatim>\<open>_process\<close> and the hooks after execution run inside it; on an exception the error
  hooks run and the exception is raised again (an exception of an error hook replaces
  it).
\<close>

definition execute ::
  "('m, 'w) AgentHook \<Rightarrow> 'm AgentMessage \<Rightarrow> 'w \<Rightarrow> (exn + 'm AgentMessage) \<times> 'w" where
  "execute agent message w =
     (case for_each_hook (map (\<lambda>hook. hook message) (pre_hooks agent)) w of
        (Some e, w1) \<Rightarrow> (Inl e, w1)
      | (None, w1) \<Rightarrow>
          (case (case process_method agent message w1 of
                   (Inl e, w2) \<Rightarrow> (Inl e, w2)
                 | (Inr result, w2) \<Rightarrow>
                     (case for_each_hook
                             (map (\<lambda>hook. hook message result) (post_hooks agent)) w2 of
                        (Some e, w3) \<Rightarrow> (Inl e, w3)
                      | (None, w3) \<Rightarrow> (Inr result, w3))) of
             (Inr result, w4) \<Rightarrow> (Inr result, w4)
           | (Inl e, w4) \<Rightarrow>
               (case for_each_hook (map (\<lambda>hook. hook message e) (error_hooks agent)) w4 of
                  (Some e', w5) \<Rightarrow> (Inl e', w5)
                | (None, w5) \<Rightarrow> (Inl e, w5))))"

text \<open>
  \<^verbatim>\<open>class AgentOrchestrator\<close>; \<open>global_hooks_orch\<close> is its list \<^verbatim>\<open>_global_hooks\<close> (the
  synchronous registry has a field of that name).
\<close>

record ('m, 'w) AgentOrchestrator =
  agents :: "string \<rightharpoonup> ('m, 'w) AgentHook"
  workflows :: "string \<rightharpoonup> string list"
  global_hooks_orch :: "(string \<Rightarrow> 'm AgentMessage \<Rightarrow> 'w \<Rightarrow> exn option \<times> 'w) list"

definition AgentOrchestrator_init :: "('m, 'w) AgentOrchestrator" where
  "AgentOrchestrator_init = \<lparr>agents = Map.empty, workflows = Map.empty, global_hooks_orch = []\<rparr>"

definition register_agent ::
  "('m, 'w) AgentHook \<Rightarrow> ('m, 'w) AgentOrchestrator \<Rightarrow> ('m, 'w) AgentOrchestrator" where
  "register_agent agent orch = orch\<lparr>agents := (agents orch)(agent_id agent \<mapsto> agent)\<rparr>"

definition register_workflow ::
  "string \<Rightarrow> string list \<Rightarrow> ('m, 'w) AgentOrchestrator \<Rightarrow> ('m, 'w) AgentOrchestrator" where
  "register_workflow nm agent_sequence orch =
     orch\<lparr>workflows := (workflows orch)(nm \<mapsto> agent_sequence)\<rparr>"

definition register_global_hook ::
  "(string \<Rightarrow> 'm AgentMessage \<Rightarrow> 'w \<Rightarrow> exn option \<times> 'w) \<Rightarrow> ('m, 'w) AgentOrchestrator \<Rightarrow>
   ('m, 'w) AgentOrchestrator" where
  "register_global_hook hook orch = orch\<lparr>global_hooks_orch := global_hooks_orch orch @ [hook]\<rparr>"

text \<open>
  A call of \<^verbatim>\<open>execute_workflow\<close>: the list of messages it returns or the exception it
  raises, and the outside state after it. \<open>wf_executed\<close> is not in the source: it lists the
  calls \<^verbatim>\<open>agent.execute(current_message)\<close> that were run, in order, each with the agent
  id of the sequence and the message passed.
\<close>

record ('m, 'w) workflow_run =
  wf_result :: "exn + 'm AgentMessage list"
  wf_world :: 'w
  wf_executed :: "(string \<times> 'm AgentMessage) list"

text \<open>
  \<^verbatim>\<open>await asyncio.gather(*tasks, return_exceptions=True)\<close> on coroutines that act on the
  outside state: every task is run, an exception of one is put in its slot of the result
  list and stops no other. The tasks are started in the order of the list; each is
  modelled as acting on the state in one piece, as an agent does whose processor and
  hooks do not suspend.
\<close>

fun gather :: "('w \<Rightarrow> (exn + 'r) \<times> 'w) list \<Rightarrow> 'w \<Rightarrow> (exn + 'r) list \<times> 'w" where
  "gather [] w = ([], w)"
| "gather (task # tasks) w =
     (case task w of
        (r, w') \<Rightarrow> (case gather tasks w' of (rs, w'') \<Rightarrow> (r # rs, w'')))"

text \<open>
  The loop that fills \<^verbatim>\<open>tasks\<close>: one coroutine \<^verbatim>\<open>agent.execute(current_message)\<close> for
  every id of the sequence that is a key of \<^verbatim>\<open>self._agents\<close>. The id is kept with the
  task for \<open>wf_executed\<close>.
\<close>

fun parallel_tasks ::
  "(string \<rightharpoonup> ('m, 'w) AgentHook) \<Rightarrow> string list \<Rightarrow> 'm AgentMessage \<Rightarrow>
   (string \<times> ('w \<Rightarrow> (exn + 'm AgentMessage) \<times> 'w)) list" where
  "parallel_tasks ags [] current_message = []"
| "parallel_tasks ags (aid # rest) current_message =
     (case ags aid of
        Some agent \<Rightarrow> (aid, execute agent current_message) # parallel_tasks ags rest current_message
      | None \<Rightarrow> parallel_tasks ags rest current_message)"

text \<open>
  The sequential loop:
  \<^verbatim>\<open>result = await agent.execute(current_message); messages.append(result); current_message = result\<close>
  for every id that is a key of \<^verbatim>\<open>self._agents\<close>. There is no \<^verbatim>\<open>try\<close>.
\<close>

fun sequential_loop ::
  "(string \<rightharpoonup> ('m, 'w) AgentHook) \<Rightarrow> string list \<Rightarrow> 'm AgentMessage list \<Rightarrow>
   'm AgentMessage \<Rightarrow> 'w \<Rightarrow> (string \<times> 'm AgentMessage) list \<Rightarrow> ('m, 'w) workflow_run" where
  "sequential_loop ags [] messages current_message w tr =
     \<lparr>wf_result = Inr messages, wf_world = w, wf_executed = tr\<rparr>"
| "sequential_loop ags (aid # rest) messages current_message w tr =
     (case ags aid of
        Some agent \<Rightarrow>
          (case execute agent current_message w of
             (Inr result, w') \<Rightarrow>
               sequential_loop ags rest (messages @ [result]) result w'
                 (tr @ [(aid, current_message)])
           | (Inl e, w') \<Rightarrow>
               \<lparr>wf_result = Inl e, wf_world = w', wf_executed = tr @ [(aid, current_message)]\<rparr>)
      | None \<Rightarrow> sequential_loop ags rest messages current_message w tr)"

text \<open>
  \<^verbatim>\<open>AgentOrchestrator.execute_workflow(workflow_name, initial_message, parallel)\<close>. The
  list \<^verbatim>\<open>messages\<close> starts as \<^verbatim>\<open>[initial_message]\<close>. In the parallel branch
  \<^verbatim>\<open>isinstance(r, AgentMessage)\<close> keeps the slots that hold a returned message.
\<close>

definition execute_workflow ::
  "('m, 'w) AgentOrchestrator \<Rightarrow> string \<Rightarrow> 'm AgentMessage \<Rightarrow> bool \<Rightarrow> 'w \<Rightarrow>
   ('m, 'w) workflow_run" where
  "execute_workflow orch workflow_name initial_message parallel w =
     (case workflows orch workflow_name of
        None \<Rightarrow>
          \<lparr>wf_result = Inl (ValueError (''Workflow '' @ workflow_name @ '' not found'')),
           wf_world = w, wf_executed = []\<rparr>
      | Some agent_sequence \<Rightarrow>
          (let messages = [initial_message];
               current_message = initial_message
           in case for_each_hook
                     (map (\<lambda>hook. hook workflow_name current_message) (global_hooks_orch orch))
                     w of
                (Some e, w0) \<Rightarrow> \<lparr>wf_result = Inl e, wf_world = w0, wf_executed = []\<rparr>
              | (None, w0) \<Rightarrow>
                  if parallel then
                    (let tasks = parallel_tasks (agents orch) agent_sequence current_message
                     in case gather (map snd tasks) w0 of
                          (gathered, w') \<Rightarrow>
                            \<lparr>wf_result = Inr (messages @ [r. Inr r \<leftarrow> gathered]),
                             wf_world = w',
                             wf_executed = map (\<lambda>t. (fst t, current_message)) tasks\<rparr>)
                  else
                    sequential_loop (agents orch) agent_sequence messages current_message
                      w0 []))"


section \<open>Notions used to state the properties\<close>

text \<open>Of a list of call outcomes: the values returned, and the exceptions raised.\<close>

definition returned :: "(exn + 'r) list \<Rightarrow> 'r list" where
  "returned outs = [x. Inr x \<leftarrow> outs]"

definition raised :: "(exn + 'r) list \<Rightarrow> exn list" where
  "raised outs = [e. Inl e \<leftarrow> outs]"













text \<open>
  The call \<^verbatim>\<open>process(x)\<close> started in state \<open>w\<close> gets to stage \<open>i\<close> (or, for
  \<open>i = length (stages p)\<close>, to the end of the loop) with the current value \<open>cur\<close>, the
  outside state \<open>w1\<close> and the calls \<open>tr\<close> made so far.
\<close>

definition reaches ::
  "('v, 'w) AsyncPipeline \<Rightarrow> 'v \<Rightarrow> 'w \<Rightarrow> nat \<Rightarrow> 'v \<Rightarrow> 'w \<Rightarrow> 'v pipeline_call list \<Rightarrow> bool" where
  "reaches p x w i cur w1 tr \<longleftrightarrow>
     i \<le> length (stages p) \<and>
     process_loop (error_handlers p) (enumerate 0 (take i (stages p))) x w [] =
       \<lparr>p_result = Inr cur, p_world = w1, p_calls = tr\<rparr>"


text \<open>The ids of a sequence that are keys of the agent dict.\<close>

definition registered_ids :: "(string \<rightharpoonup> ('m, 'w) AgentHook) \<Rightarrow> string list \<Rightarrow> string list" where
  "registered_ids ags agent_sequence = filter (\<lambda>aid. ags aid \<noteq> None) agent_sequence"


section \<open>Example inputs\<close>

text \<open>
  Hooks of the synchronous registry that write their name to the outside state (a list
  of names), and registries built from them: one with mixed priorities, a global hook, an
  explicit name and a disabled hook; one with three hooks of which the second raises.
\<close>

definition noting_hook :: "string \<Rightarrow> (int, string list, string) callable" where
  "noting_hook nm = \<lparr>fn_name = nm, call = (\<lambda>x w. (Inr (nm @ '' ok''), w @ [nm]))\<rparr>"

definition raising_hook :: "string \<Rightarrow> (int, string list, string) callable" where
  "raising_hook nm = \<lparr>fn_name = nm, call = (\<lambda>x w. (Inl (Exception ''boom''), w @ [nm]))\<rparr>"

definition priority_registry :: "(int, string list, string) HookRegistry" where
  "priority_registry =
     registered
       [(Some ''e'', LOW, None, True, noting_hook ''b''),
        (Some ''e'', HIGH, None, True, noting_hook ''a''),
        (None, NORMAL, None, True, noting_hook ''g''),
        (Some ''e'', HIGH, Some ''a2'', True, noting_hook ''c''),
        (Some ''e'', HIGHEST, None, False, noting_hook ''off'')]"

definition isolation_registry :: "(int, string list, string) HookRegistry" where
  "isolation_registry =
     registered
       [(Some ''e'', NORMAL, None, True, noting_hook ''h1''),
        (Some ''e'', NORMAL, None, True, raising_hook ''h2''),
        (Some ''e'', NORMAL, None, True, noting_hook ''h3'')]"






text \<open>
  Three teardown hooks registered in the order \<open>t1\<close>, \<open>t2\<close>, \<open>t3\<close>; in the first
  context \<open>t2\<close> raises.
\<close>

definition note_teardown :: "string \<Rightarrow> (string, string list) teardown_hook" where
  "note_teardown nm res w = (None, res, w @ [nm])"

definition failing_teardown :: "string \<Rightarrow> (string, string list) teardown_hook" where
  "failing_teardown nm res w = (Some (Exception (nm @ '' failed'')), res, w @ [nm])"

definition three_teardowns :: "(string, string list) AsyncHookContext" where
  "three_teardowns =
     teardown_ctx (note_teardown ''t3'')
       (teardown_ctx (failing_teardown ''t2'')
         (teardown_ctx (note_teardown ''t1'') (AsyncHookContext_init ''scope'')))"

definition quiet_teardowns :: "(string, string list) AsyncHookContext" where
  "quiet_teardowns =
     teardown_ctx (note_teardown ''t3'')
       (teardown_ctx (note_teardown ''t2'')
         (teardown_ctx (note_teardown ''t1'') (AsyncHookContext_init ''scope'')))"







text \<open>
  Agents \<open>A\<close>, \<open>B\<close> and \<open>C\<close>, of which \<open>B\<close> always raises, with the workflows
  \<open>[A, B, C]\<close> and \<open>[A, X, C]\<close>; no agent \<open>X\<close> is registered.
\<close>

definition agent_A :: "(unit, string list) AgentHook" where
  "agent_A = SimpleAgent ''A'' PLANNER (\<lambda>x w. (Inr (''A: '' @ x), w @ [''A'']))"

definition agent_B :: "(unit, string list) AgentHook" where
  "agent_B = SimpleAgent ''B'' EXECUTOR (\<lambda>x w. (Inl (Exception ''B failed''), w @ [''B'']))"

definition agent_C :: "(unit, string list) AgentHook" where
  "agent_C = SimpleAgent ''C'' REVIEWER (\<lambda>x w. (Inr (''C: '' @ x), w @ [''C'']))"

definition abc_orchestrator :: "(unit, string list) AgentOrchestrator" where
  "abc_orchestrator =
     register_workflow ''axc'' [''A'', ''X'', ''C'']
       (register_workflow ''abc'' [''A'', ''B'', ''C'']
         (register_agent agent_C
           (register_agent agent_B
             (register_agent agent_A AgentOrchestrator_init))))"

definition start :: "unit AgentMessage" where
  "start = AgentMessage COORDINATOR ''task'' () []"

definition result_A :: "unit AgentMessage" where
  "result_A = AgentMessage PLANNER ''A: task'' () [start]"


section \<open>Properties of the synchronous registry\<close>

lemma returned_simps [simp]:
  "returned [] = []"
  "returned (Inr x # outs) = x # returned outs"
  "returned (Inl e # outs) = returned outs"
  "returned (xs @ ys) = returned xs @ returned ys"
  by (simp_all add: returned_def)

lemma raised_simps [simp]:
  "raised [] = []"
  "raised (Inr x # outs) = raised outs"
  "raised (Inl e # outs) = e # raised outs"
  "raised (xs @ ys) = raised xs @ raised ys"
  by (simp_all add: raised_def)

lemma length_returned_raised: "length (returned outs) + length (raised outs) = length outs"
proof (induction outs)
  case Nil show ?case by simp
next
  case (Cons o1 outs) then show ?case by (cases o1) simp_all
qed
















lemma sort_priority_reverse_Nil_iff [simp]: "sort_priority_reverse hs = [] \<longleftrightarrow> hs = []"
  unfolding sort_priority_reverse_def
  by (metis mset_sort mset_zero_iff)









text \<open>
  The registry \<open>priority_registry\<close>: the global hook fires first, then the hooks of the
  event by priority, \<open>a\<close> before \<open>c\<close> (registered as \<open>a2\<close>) as both are \<open>HIGH\<close> and \<open>a\<close>
  was registered first; the disabled hook does not fire.
\<close>

lemmas sync_example_defs =
  priority_registry_def isolation_registry_def registered_def HookRegistry_init_def
  register_def sort_priority_reverse_def trigger_def run_hook_def noting_hook_def
  raising_hook_def Let_def

lemma trigger_priority_example:
  "results (trigger priority_registry ''e'' 5 []) = [''g ok'', ''a ok'', ''c ok'', ''b ok''] \<and>
   world (trigger priority_registry ''e'' 5 []) = [''g'', ''a'', ''c'', ''b''] \<and>
   map (name \<circ> fst) (calls (trigger priority_registry ''e'' 5 [])) = [''g'', ''a'', ''a2'', ''b'']"
  by (simp add: sync_example_defs)

text \<open>
  Three hooks where the second raises: the first and the third are called, two results
  are returned and one line is logged.
\<close>

lemma trigger_isolation_example:
  "results (trigger isolation_registry ''e'' 5 []) = [''h1 ok'', ''h3 ok''] \<and>
   world (trigger isolation_registry ''e'' 5 []) = [''h1'', ''h2'', ''h3''] \<and>
   logged (trigger isolation_registry ''e'' 5 []) = [''Error in hook h2 for event e: boom'']"
  by (simp add: sync_example_defs)


section \<open>Properties of the asynchronous registry\<close>


































section \<open>Properties of the scope exit\<close>

lemma aexit_loop_append:
  "aexit_loop pre c w tr = \<lparr>x_result = Inr b, x_self = c1, x_world = w1, x_calls = tr1\<rparr> \<Longrightarrow>
   aexit_loop (pre @ post) c w tr = aexit_loop post c1 w1 tr1"
proof (induction pre arbitrary: c w tr)
  case Nil
  then show ?case by simp
next
  case (Cons h pre)
  then show ?case
    by (auto split: prod.splits option.splits)
qed

lemma aexit_loop_calls:
  "\<exists>k \<le> length hs. map fst (x_calls (aexit_loop hs c w tr)) = map fst tr @ take k hs \<and>
     (case x_result (aexit_loop hs c w tr) of Inr b \<Rightarrow> \<not> b \<and> k = length hs | Inl e \<Rightarrow> 0 < k)"
proof (induction hs arbitrary: c w tr)
  case Nil
  then show ?case by simp
next
  case (Cons h hs)
  obtain r res' w' where h: "h (resources c) w = (r, res', w')"
    by (cases "h (resources c) w")
  show ?case
  proof (cases r)
    case None
    from Cons.IH [of "c\<lparr>resources := res'\<rparr>" w' "tr @ [(h, resources c)]"]
    obtain k where k: "k \<le> length hs"
      "map fst (x_calls (aexit_loop hs (c\<lparr>resources := res'\<rparr>) w' (tr @ [(h, resources c)]))) =
        map fst (tr @ [(h, resources c)]) @ take k hs"
      "(case x_result (aexit_loop hs (c\<lparr>resources := res'\<rparr>) w' (tr @ [(h, resources c)])) of
          Inr b \<Rightarrow> \<not> b \<and> k = length hs | Inl e \<Rightarrow> 0 < k)"
      by blast
    show ?thesis
      by (rule exI [of _ "Suc k"]) (use k h None in \<open>auto split: sum.splits\<close>)
  next
    case (Some e)
    show ?thesis
      by (rule exI [of _ "Suc 0"]) (use h Some in auto)
  qed
qed

text \<open>
  Claim C4 as worded fails: of the three teardown hooks of \<open>three_teardowns\<close>, \<open>t3\<close>
  runs, \<open>t2\<close> runs and raises, and \<open>t1\<close> is never run; the exception of \<open>t2\<close> leaves
  \<^verbatim>\<open>__aexit__\<close> at once.
\<close>

theorem teardown_after_failure_skipped:
  "length (teardown_hooks three_teardowns) = 3 \<and>
   length (x_calls (aexit three_teardowns None [])) = 2 \<and>
   x_world (aexit three_teardowns None []) = [''t3'', ''t2''] \<and>
   x_result (aexit three_teardowns None []) = Inl (Exception ''t2 failed'')"
  by (simp add: three_teardowns_def teardown_ctx_def AsyncHookContext_init_def aexit_def
      note_teardown_def failing_teardown_def)

text \<open>
  Claim C4, as the code has it. Let the teardown hooks be, in reverse registration
  order, \<open>before\<close>, then \<open>h\<close>, then \<open>after\<close>. When the hooks \<open>before\<close> have run without
  raising, \<open>h\<close> is awaited with the resource map as they left it. If \<open>h\<close> raises, its
  exception leaves \<^verbatim>\<open>__aexit__\<close> at once and no hook of \<open>after\<close> is run; if not, the
  loop goes on with \<open>after\<close>. In every case the hooks run are the first \<open>k\<close> in reverse
  registration order: all of them when \<^verbatim>\<open>__aexit__\<close> returns (and it returns
  \<^verbatim>\<open>False\<close>), at least one when it raises.
\<close>

theorem aexit_stops_at_first_failure:
  assumes split: "rev (teardown_hooks c) = before @ h # after"
    and pre: "aexit_loop before c w [] =
        \<lparr>x_result = Inr False, x_self = c1, x_world = w1, x_calls = tr\<rparr>"
    and h: "h (resources c1) w1 = (r, res2, w2)"
  shows "map fst tr = before \<and>
     (\<forall>e. r = Some e \<longrightarrow>
        aexit c exc w =
          \<lparr>x_result = Inl e, x_self = c1\<lparr>resources := res2\<rparr>, x_world = w2,
           x_calls = tr @ [(h, resources c1)]\<rparr>) \<and>
     (r = None \<longrightarrow>
        aexit c exc w =
          aexit_loop after (c1\<lparr>resources := res2\<rparr>) w2 (tr @ [(h, resources c1)])) \<and>
     (\<exists>k \<le> length (teardown_hooks c).
        map fst (x_calls (aexit c exc w)) = take k (rev (teardown_hooks c)) \<and>
        (case x_result (aexit c exc w) of
           Inr b \<Rightarrow> \<not> b \<and> k = length (teardown_hooks c)
         | Inl e \<Rightarrow> 0 < k))"
proof -
  from aexit_loop_calls [of before c w "[]"] pre
  have tr: "map fst tr = before"
    by auto
  have step: "aexit c exc w = aexit_loop (h # after) c1 w1 tr"
    unfolding aexit_def split by (rule aexit_loop_append [OF pre])
  from aexit_loop_calls [of "rev (teardown_hooks c)" c w "[]"]
  have all: "\<exists>k \<le> length (teardown_hooks c).
        map fst (x_calls (aexit c exc w)) = take k (rev (teardown_hooks c)) \<and>
        (case x_result (aexit c exc w) of
           Inr b \<Rightarrow> \<not> b \<and> k = length (teardown_hooks c)
         | Inl e \<Rightarrow> 0 < k)"
    by (auto simp: aexit_def split: sum.splits)
  show ?thesis
    using tr all h by (auto simp: step)
qed

theorem aexit_stops_at_first_failure_witness:
  "rev (teardown_hooks three_teardowns) =
     [note_teardown ''t3''] @ failing_teardown ''t2'' # [note_teardown ''t1''] \<and>
   aexit three_teardowns None [] =
     \<lparr>x_result = Inl (Exception ''t2 failed''), x_self = three_teardowns,
      x_world = [''t3'', ''t2''],
      x_calls = [(note_teardown ''t3'', Map.empty), (failing_teardown ''t2'', Map.empty)]\<rparr> \<and>
   aexit quiet_teardowns None [] =
     \<lparr>x_result = Inr False, x_self = quiet_teardowns,
      x_world = [''t3'', ''t2'', ''t1''],
      x_calls = [(note_teardown ''t3'', Map.empty), (note_teardown ''t2'', Map.empty),
                 (note_teardown ''t1'', Map.empty)]\<rparr>"
proof -
  have sp: "rev (teardown_hooks three_teardowns) =
     [note_teardown ''t3''] @ failing_teardown ''t2'' # [note_teardown ''t1'']"
    by (simp add: three_teardowns_def teardown_ctx_def AsyncHookContext_init_def)
  have res: "resources three_teardowns = Map.empty"
    by (simp add: three_teardowns_def teardown_ctx_def AsyncHookContext_init_def)
  have pre: "aexit_loop [note_teardown ''t3''] three_teardowns [] [] =
      \<lparr>x_result = Inr False, x_self = three_teardowns, x_world = [''t3''],
       x_calls = [(note_teardown ''t3'', Map.empty)]\<rparr>"
    by (simp add: res note_teardown_def)
  have h: "failing_teardown ''t2'' (resources three_teardowns) [''t3''] =
      (Some (Exception ''t2 failed''), Map.empty, [''t3'', ''t2''])"
    by (simp add: res failing_teardown_def)
  from aexit_stops_at_first_failure [OF sp pre h, of None]
  have "aexit three_teardowns None [] =
      \<lparr>x_result = Inl (Exception ''t2 failed''),
       x_self = three_teardowns\<lparr>resources := Map.empty\<rparr>, x_world = [''t3'', ''t2''],
       x_calls = [(note_teardown ''t3'', Map.empty)] @
                 [(failing_teardown ''t2'', resources three_teardowns)]\<rparr>"
    by blast
  moreover have "three_teardowns\<lparr>resources := Map.empty\<rparr> = three_teardowns"
    by (simp add: three_teardowns_def teardown_ctx_def AsyncHookContext_init_def)
  moreover have "aexit quiet_teardowns None [] =
     \<lparr>x_result = Inr False, x_self = quiet_teardowns,
      x_world = [''t3'', ''t2'', ''t1''],
      x_calls = [(note_teardown ''t3'', Map.empty), (note_teardown ''t2'', Map.empty),
                 (note_teardown ''t1'', Map.empty)]\<rparr>"
    by (simp add: quiet_teardowns_def teardown_ctx_def AsyncHookContext_init_def aexit_def
        note_teardown_def)
  ultimately show ?thesis
    using sp by (simp add: res)
qed


section \<open>Properties of the pipeline\<close>





lemma process_loop_calls_extend:
  "\<exists>more. p_calls (process_loop H xs cur w tr) = tr @ more"
proof (induction xs arbitrary: cur w tr)
  case Nil
  then show ?case by simp
next
  case (Cons a xs)
  obtain i stage where a: "a = (i, stage)" by (cases a)
  have ext: "\<exists>more. p_calls (process_loop H xs v w' (tr @ new)) = tr @ more" for v w' new
  proof -
    from Cons.IH [where tr = "tr @ new"]
    obtain more where "p_calls (process_loop H xs v w' (tr @ new)) = (tr @ new) @ more"
      by blast
    then show ?thesis by simp
  qed
  show ?case
    by (auto simp: a ext split: prod.splits sum.splits option.splits)
qed



lemma reaches_start: "reaches p x w 0 x w []"
  by (simp add: reaches_def)





section \<open>Properties of the orchestrator\<close>

lemma length_gather: "length (fst (gather tasks w)) = length tasks"
proof (induction tasks arbitrary: w)
  case Nil
  show ?case by simp
next
  case (Cons task tasks)
  obtain r w' where t: "task w = (r, w')" by (cases "task w")
  obtain rs w'' where g: "gather tasks w' = (rs, w'')" by (cases "gather tasks w'")
  from Cons [of w'] g have "length rs = length tasks" by simp
  with t g show ?case by simp
qed

lemma registered_ids_Nil [simp]: "registered_ids ags [] = []"
  by (simp add: registered_ids_def)

lemma registered_ids_Cons:
  "registered_ids ags (aid # sq) =
     (if ags aid = None then registered_ids ags sq else aid # registered_ids ags sq)"
  by (simp add: registered_ids_def)

lemma parallel_tasks_executed:
  "map (\<lambda>t. (fst t, m)) (parallel_tasks ags sq m) =
     map (\<lambda>aid. (aid, m)) (registered_ids ags sq)"
  by (induction sq) (auto simp: registered_ids_Cons split: option.splits)

lemma parallel_tasks_ids: "map fst (parallel_tasks ags sq m) = registered_ids ags sq"
  by (induction sq) (auto simp: registered_ids_def split: option.splits)

lemma parallel_tasks_snd:
  "map snd (parallel_tasks ags sq m) =
     map (\<lambda>aid. execute (the (ags aid)) m) (registered_ids ags sq)"
  by (induction sq) (auto simp: registered_ids_def split: option.splits)

lemma sequential_loop_append:
  "sequential_loop ags pre ms cur w tr =
     \<lparr>wf_result = Inr ms', wf_world = w', wf_executed = tr'\<rparr> \<Longrightarrow>
   ms \<noteq> [] \<Longrightarrow> cur = last ms \<Longrightarrow>
   ms' \<noteq> [] \<and>
   sequential_loop ags (pre @ post) ms cur w tr = sequential_loop ags post ms' (last ms') w' tr'"
proof (induction pre arbitrary: ms cur w tr)
  case Nil
  then show ?case by simp
next
  case (Cons aid pre)
  show ?case
  proof (cases "ags aid")
    case None
    with Cons show ?thesis by simp
  next
    case (Some agent)
    obtain out w1 where ex: "execute agent cur w = (out, w1)"
      by (cases "execute agent cur w")
    show ?thesis
    proof (cases out)
      case (Inl e)
      with Cons.prems Some ex show ?thesis by simp
    next
      case (Inr result)
      with Cons.prems Some ex
      have "sequential_loop ags pre (ms @ [result]) result w1 (tr @ [(aid, cur)]) =
          \<lparr>wf_result = Inr ms', wf_world = w', wf_executed = tr'\<rparr>"
        by simp
      from Cons.IH [OF this] show ?thesis
        using Some ex Inr by simp
    qed
  qed
qed

lemma sequential_loop_trace:
  "ms \<noteq> [] \<Longrightarrow> cur = last ms \<Longrightarrow> map snd tr = butlast ms \<Longrightarrow>
   \<exists>k \<le> length (registered_ids ags sq).
     map fst (wf_executed (sequential_loop ags sq ms cur w tr)) =
       map fst tr @ take k (registered_ids ags sq) \<and>
     (case wf_result (sequential_loop ags sq ms cur w tr) of
        Inr ms' \<Rightarrow> k = length (registered_ids ags sq) \<and>
                  map snd (wf_executed (sequential_loop ags sq ms cur w tr)) = butlast ms' \<and>
                  take (length ms) ms' = ms
      | Inl e \<Rightarrow> 0 < k)"
proof (induction sq arbitrary: ms cur w tr)
  case Nil
  then show ?case by (simp add: registered_ids_def)
next
  case (Cons aid sq)
  show ?case
  proof (cases "ags aid")
    case None
    then have "registered_ids ags (aid # sq) = registered_ids ags sq"
      "sequential_loop ags (aid # sq) ms cur w tr = sequential_loop ags sq ms cur w tr"
      by (simp_all add: registered_ids_Cons)
    with Cons.IH [OF Cons.prems, of w] show ?thesis
      by (simp only:)
  next
    case (Some agent)
    obtain out w1 where ex: "execute agent cur w = (out, w1)"
      by (cases "execute agent cur w")
    show ?thesis
    proof (cases out)
      case (Inl e)
      show ?thesis
        by (rule exI [of _ "Suc 0"]) (use Some ex Inl in \<open>simp add: registered_ids_Cons\<close>)
    next
      case (Inr result)
      have p: "ms @ [result] \<noteq> []" "result = last (ms @ [result])"
        "map snd (tr @ [(aid, cur)]) = butlast (ms @ [result])"
        using Cons.prems by (simp_all add: butlast_append snoc_eq_iff_butlast)
      from Cons.IH [OF p, of w1]
      obtain k where k: "k \<le> length (registered_ids ags sq)"
        "map fst (wf_executed (sequential_loop ags sq (ms @ [result]) result w1 (tr @ [(aid, cur)]))) =
           map fst (tr @ [(aid, cur)]) @ take k (registered_ids ags sq)"
        "(case wf_result (sequential_loop ags sq (ms @ [result]) result w1 (tr @ [(aid, cur)])) of
            Inr ms' \<Rightarrow> k = length (registered_ids ags sq) \<and>
              map snd (wf_executed (sequential_loop ags sq (ms @ [result]) result w1
                 (tr @ [(aid, cur)]))) = butlast ms' \<and>
              take (length (ms @ [result])) ms' = ms @ [result]
          | Inl e \<Rightarrow> 0 < k)"
        by blast
      have tk: "take (length ms) ms' = ms" if "take (length (ms @ [result])) ms' = ms @ [result]"
        for ms'
        using that by (metis append_eq_conv_conj take_take min.absorb1 length_append le_add1)
      show ?thesis
        by (rule exI [of _ "Suc k"])
          (use k Some ex Inr tk in \<open>auto simp: registered_ids_Cons split: sum.splits\<close>)
    qed
  qed
qed

lemmas orchestrator_example_defs =
  abc_orchestrator_def register_workflow_def register_agent_def AgentOrchestrator_init_def
  agent_A_def agent_B_def agent_C_def SimpleAgent_def AgentHook_init_def

text \<open>
  Claim C5 as worded fails in the count: for the workflow \<open>[A, B, C]\<close> where \<open>B\<close>
  raises, run in parallel, the list returned has three entries, not two: the initial
  message, the result of \<open>A\<close> and the result of \<open>C\<close>. All three agents are run, each on
  the initial message.
\<close>

theorem parallel_returns_three_entries:
  "wf_result (execute_workflow abc_orchestrator ''abc'' start True []) =
     Inr [start, result_A, AgentMessage REVIEWER ''C: task'' () [start]] \<and>
   map_sum id length (wf_result (execute_workflow abc_orchestrator ''abc'' start True [])) =
     Inr 3 \<and>
   wf_executed (execute_workflow abc_orchestrator ''abc'' start True []) =
     [(''A'', start), (''B'', start), (''C'', start)]"
  by (simp add: execute_workflow_def execute_def orchestrator_example_defs start_def
      result_A_def Let_def)

text \<open>
  Claim C5, as the code has it. For a registered workflow whose global hooks return,
  run with \<^verbatim>\<open>parallel=True\<close>: every id of the sequence that has a registered agent is
  executed, in sequence order, each on the same initial message; the list returned is the
  initial message followed by the results of the agents that returned, in that order, so
  an agent that raised leaves no entry and removes no other; with \<open>n\<close> agents executed of
  which \<open>k\<close> raised the list has \<open>1 + (n - k)\<close> entries.
\<close>

theorem execute_workflow_parallel:
  assumes wf: "workflows orch nm = Some sq"
    and gh: "for_each_hook (map (\<lambda>hook. hook nm initial) (global_hooks_orch orch)) w = (None, w0)"
  shows "wf_executed (execute_workflow orch nm initial True w) =
           map (\<lambda>aid. (aid, initial)) (registered_ids (agents orch) sq) \<and>
         (\<exists>outs w'.
            gather (map (\<lambda>aid. execute (the (agents orch aid)) initial)
                      (registered_ids (agents orch) sq)) w0 = (outs, w') \<and>
            length outs = length (registered_ids (agents orch) sq) \<and>
            wf_result (execute_workflow orch nm initial True w) = Inr (initial # returned outs) \<and>
            wf_world (execute_workflow orch nm initial True w) = w' \<and>
            length (initial # returned outs) =
              1 + (length (registered_ids (agents orch) sq) - length (raised outs)))"
proof -
  let ?ids = "registered_ids (agents orch) sq"
  let ?tasks = "map (\<lambda>aid. execute (the (agents orch aid)) initial) ?ids"
  obtain outs w' where g: "gather ?tasks w0 = (outs, w')"
    by (cases "gather ?tasks w0")
  have len: "length outs = length ?ids"
    using length_gather [of ?tasks w0] g by simp
  have ex: "wf_executed (execute_workflow orch nm initial True w) =
      map (\<lambda>aid. (aid, initial)) ?ids"
    using wf gh
    by (simp add: execute_workflow_def Let_def parallel_tasks_executed
        split: prod.splits)
  have res: "execute_workflow orch nm initial True w =
      \<lparr>wf_result = Inr (initial # returned outs), wf_world = w',
       wf_executed = map (\<lambda>t. (fst t, initial)) (parallel_tasks (agents orch) sq initial)\<rparr>"
    using wf gh g
    by (simp add: execute_workflow_def Let_def parallel_tasks_snd returned_def)
  have cnt: "length (returned outs) = length ?ids - length (raised outs)"
    using length_returned_raised [of outs] len by arith
  show ?thesis
    using ex g len cnt by (simp add: res)
qed

theorem execute_workflow_parallel_witness:
  "workflows abc_orchestrator ''abc'' = Some [''A'', ''B'', ''C''] \<and>
   wf_executed (execute_workflow abc_orchestrator ''abc'' start True []) =
     [(''A'', start), (''B'', start), (''C'', start)] \<and>
   wf_result (execute_workflow abc_orchestrator ''abc'' start True []) =
     Inr [start, result_A, AgentMessage REVIEWER ''C: task'' () [start]] \<and>
   wf_world (execute_workflow abc_orchestrator ''abc'' start True []) = [''A'', ''B'', ''C'']"
proof -
  have wf: "workflows abc_orchestrator ''abc'' = Some [''A'', ''B'', ''C'']"
    by (simp add: orchestrator_example_defs)
  have gh: "for_each_hook (map (\<lambda>hook. hook ''abc'' start) (global_hooks_orch abc_orchestrator)) [] =
      (None, [])"
    by (simp add: orchestrator_example_defs)
  have ids: "registered_ids (agents abc_orchestrator) [''A'', ''B'', ''C''] = [''A'', ''B'', ''C'']"
    by (simp add: registered_ids_def orchestrator_example_defs)
  have g: "gather (map (\<lambda>aid. execute (the (agents abc_orchestrator aid)) start)
        [''A'', ''B'', ''C'']) [] =
      ([Inr result_A, Inl (Exception ''B failed''),
        Inr (AgentMessage REVIEWER ''C: task'' () [start])], [''A'', ''B'', ''C''])"
    by (simp add: execute_def orchestrator_example_defs start_def result_A_def)
  from execute_workflow_parallel [OF wf gh]
  obtain outs w' where ex: "wf_executed (execute_workflow abc_orchestrator ''abc'' start True []) =
      map (\<lambda>aid. (aid, start)) (registered_ids (agents abc_orchestrator) [''A'', ''B'', ''C''])"
    and o: "gather (map (\<lambda>aid. execute (the (agents abc_orchestrator aid)) start)
        (registered_ids (agents abc_orchestrator) [''A'', ''B'', ''C''])) [] = (outs, w')"
    and r: "wf_result (execute_workflow abc_orchestrator ''abc'' start True []) =
      Inr (start # returned outs)"
    and w: "wf_world (execute_workflow abc_orchestrator ''abc'' start True []) = w'"
    by blast
  from o have "outs = [Inr result_A, Inl (Exception ''B failed''),
        Inr (AgentMessage REVIEWER ''C: task'' () [start])]" "w' = [''A'', ''B'', ''C'']"
    unfolding ids g by simp_all
  with ex r w wf show ?thesis
    by (simp add: ids)
qed

text \<open>
  Claim C6. For a registered workflow whose global hooks return, run with
  \<^verbatim>\<open>parallel=False\<close>, let the sequence be \<open>before\<close>, then the id \<open>aid\<close>, then \<open>after\<close>,
  and let the loop have gone through \<open>before\<close> without an exception, giving the messages
  \<open>ms\<close>. Then the agents executed so far are the registered ids of \<open>before\<close> in order,
  and their inputs are the messages of \<open>ms\<close> but the last: the initial message for the
  first, and for each later one the result of the agent before it. If \<open>aid\<close> has no
  registered agent it is skipped. If its agent returns a result on the last message of
  \<open>ms\<close>, the result is appended and is the input of what follows. If its agent raises,
  \<^verbatim>\<open>execute_workflow\<close> raises that exception and no agent of \<open>after\<close> is executed. When
  the call returns a list, all registered ids of the sequence have been executed in
  order, each on the message before its own result.
\<close>

theorem execute_workflow_sequential:
  assumes wf: "workflows orch nm = Some (before @ aid # after)"
    and gh: "for_each_hook (map (\<lambda>hook. hook nm initial) (global_hooks_orch orch)) w = (None, w0)"
    and pre: "sequential_loop (agents orch) before [initial] initial w0 [] =
        \<lparr>wf_result = Inr ms, wf_world = w1, wf_executed = tr\<rparr>"
  shows "map fst tr = registered_ids (agents orch) before \<and>
     map snd tr = butlast ms \<and> ms \<noteq> [] \<and> hd ms = initial \<and>
     (agents orch aid = None \<longrightarrow>
        execute_workflow orch nm initial False w =
          sequential_loop (agents orch) after ms (last ms) w1 tr) \<and>
     (\<forall>agent result w2.
        agents orch aid = Some agent \<and> execute agent (last ms) w1 = (Inr result, w2) \<longrightarrow>
        execute_workflow orch nm initial False w =
          sequential_loop (agents orch) after (ms @ [result]) result w2
            (tr @ [(aid, last ms)])) \<and>
     (\<forall>agent e w2.
        agents orch aid = Some agent \<and> execute agent (last ms) w1 = (Inl e, w2) \<longrightarrow>
        execute_workflow orch nm initial False w =
          \<lparr>wf_result = Inl e, wf_world = w2, wf_executed = tr @ [(aid, last ms)]\<rparr>) \<and>
     (\<forall>msgs. wf_result (execute_workflow orch nm initial False w) = Inr msgs \<longrightarrow>
        map fst (wf_executed (execute_workflow orch nm initial False w)) =
          registered_ids (agents orch) (before @ aid # after) \<and>
        map snd (wf_executed (execute_workflow orch nm initial False w)) = butlast msgs \<and>
        hd msgs = initial)"
proof -
  let ?ags = "agents orch"
  have ew: "execute_workflow orch nm initial False w =
      sequential_loop ?ags (before @ aid # after) [initial] initial w0 []"
    using wf gh by (simp add: execute_workflow_def)
  from sequential_loop_append [OF pre, of "aid # after"]
  have ms: "ms \<noteq> []"
    and step: "sequential_loop ?ags (before @ aid # after) [initial] initial w0 [] =
      sequential_loop ?ags (aid # after) ms (last ms) w1 tr"
    by simp_all
  from sequential_loop_trace [of "[initial]" initial "[]" ?ags before w0] pre
  have tr: "map fst tr = registered_ids ?ags before" "map snd tr = butlast ms"
    "take 1 ms = [initial]"
    by auto
  from tr(3) ms have hd: "hd ms = initial"
    by (cases ms) simp_all
  have full: "map fst (wf_executed (execute_workflow orch nm initial False w)) =
          registered_ids ?ags (before @ aid # after) \<and>
        map snd (wf_executed (execute_workflow orch nm initial False w)) = butlast msgs \<and>
        hd msgs = initial"
    if r: "wf_result (execute_workflow orch nm initial False w) = Inr msgs" for msgs
  proof -
    from sequential_loop_trace [of "[initial]" initial "[]" ?ags "before @ aid # after" w0] r
    have "map fst (wf_executed (execute_workflow orch nm initial False w)) =
          registered_ids ?ags (before @ aid # after)"
      "map snd (wf_executed (execute_workflow orch nm initial False w)) = butlast msgs"
      "take 1 msgs = [initial]"
      by (auto simp: ew)
    moreover from this(3) have "hd msgs = initial"
      by (cases msgs) simp_all
    ultimately show ?thesis by simp
  qed
  show ?thesis
    using tr(1,2) ms hd full by (auto simp: ew step)
qed

text \<open>
  The workflow \<open>[A, B, C]\<close>, sequentially: \<open>B\<close> gets the result of \<open>A\<close> and raises, and
  \<open>C\<close> is not executed. The workflow \<open>[A, X, C]\<close>: \<open>X\<close> is skipped and \<open>C\<close> gets the
  result of \<open>A\<close>.
\<close>

theorem execute_workflow_sequential_witness:
  "execute_workflow abc_orchestrator ''abc'' start False [] =
     \<lparr>wf_result = Inl (Exception ''B failed''), wf_world = [''A'', ''B''],
      wf_executed = [(''A'', start), (''B'', result_A)]\<rparr> \<and>
   execute_workflow abc_orchestrator ''axc'' start False [] =
     \<lparr>wf_result = Inr [start, result_A,
                       AgentMessage REVIEWER ''C: A: task'' () [start, result_A]],
      wf_world = [''A'', ''C''],
      wf_executed = [(''A'', start), (''C'', result_A)]\<rparr>"
proof -
  have wf: "workflows abc_orchestrator ''abc'' = Some ([''A''] @ ''B'' # [''C''])"
    "workflows abc_orchestrator ''axc'' = Some ([''A''] @ ''X'' # [''C''])"
    by (simp_all add: orchestrator_example_defs)
  have gh: "for_each_hook (map (\<lambda>hook. hook nm start) (global_hooks_orch abc_orchestrator)) [] =
      (None, [])" for nm
    by (simp add: orchestrator_example_defs)
  have ags: "agents abc_orchestrator ''A'' = Some agent_A"
    "agents abc_orchestrator ''B'' = Some agent_B"
    "agents abc_orchestrator ''C'' = Some agent_C"
    "agents abc_orchestrator ''X'' = None"
    by (simp_all add: abc_orchestrator_def register_workflow_def register_agent_def
        AgentOrchestrator_init_def agent_A_def agent_B_def agent_C_def SimpleAgent_def
        AgentHook_init_def)
  have exA: "execute agent_A start [] = (Inr result_A, [''A''])"
    by (simp add: execute_def agent_A_def SimpleAgent_def AgentHook_init_def start_def
        result_A_def)
  have exB: "execute agent_B result_A [''A''] = (Inl (Exception ''B failed''), [''A'', ''B''])"
    by (simp add: execute_def agent_B_def SimpleAgent_def AgentHook_init_def result_A_def)
  have exC: "execute agent_C result_A [''A''] =
      (Inr (AgentMessage REVIEWER ''C: A: task'' () [start, result_A]), [''A'', ''C''])"
    by (simp add: execute_def agent_C_def SimpleAgent_def AgentHook_init_def result_A_def)
  have pre: "sequential_loop (agents abc_orchestrator) [''A''] [start] start [] [] =
      \<lparr>wf_result = Inr [start, result_A], wf_world = [''A''],
       wf_executed = [(''A'', start)]\<rparr>"
    by (simp add: ags exA)
  from execute_workflow_sequential [OF wf(1) gh pre] ags(2) exB
  have "execute_workflow abc_orchestrator ''abc'' start False [] =
      \<lparr>wf_result = Inl (Exception ''B failed''), wf_world = [''A'', ''B''],
       wf_executed = [(''A'', start)] @ [(''B'', last [start, result_A])]\<rparr>"
    by simp
  moreover from execute_workflow_sequential [OF wf(2) gh pre] ags(4)
  have "execute_workflow abc_orchestrator ''axc'' start False [] =
      sequential_loop (agents abc_orchestrator) [''C''] [start, result_A]
        (last [start, result_A]) [''A''] [(''A'', start)]"
    by blast
  ultimately show ?thesis
    by (simp add: ags exC)
qed

end
